theory Spec2Isabelle
  imports Complex_Main "HOL-Library.Word" "HOL-Library.Signed_Division"
begin

section \<open>Go values\<close>

text \<open>
  Go's \<open>int\<close> and \<open>int64\<close> are 64-bit two's complement integers on the platforms the
  server is built for: arithmetic wraps around, comparison is signed (\<open><s\<close>, \<open>\<le>s\<close>,
  read through \<open>sint\<close>), and \<open>/\<close> truncates towards zero. The identifiers of rows and
  users (\<open>uint\<close>) are only ever compared and copied, never computed with, and are natural
  numbers here. A \<open>float64\<close> price is only compared and copied; it is modelled by the
  real number it denotes (NaN and the infinities, which a JSON body cannot carry, are
  left out). A \<open>time.Time\<close> is a point on an abstract clock, \<open>0\<close> being Go's zero time.
\<close>

type_synonym go_int = "64 word"
type_synonym uint = nat
type_synonym float64 = real
type_synonym timestamp = nat

text \<open>
  An \<open>error\<close> value made by \<open>errors.New\<close> carries its message; a run-time panic is kept
  apart from it.
\<close>

datatype go_error = Err string | Panic string

text \<open>Integer division of Go on 64-bit operands; the caller has excluded a zero divisor.\<close>

definition go_quot :: "go_int \<Rightarrow> go_int \<Rightarrow> go_int" where
  "go_quot a b = word_of_int (sint a sdiv sint b)"


section \<open>Pagination (package domain)\<close>

record PaginationRequest =
  Page :: go_int
  PageSize :: go_int

record PaginationResponse =
  CurrentPage :: go_int
  PageSize_resp :: go_int
  TotalItems :: go_int
  TotalPages :: go_int
  HasNextPage :: bool
  HasPrevPage :: bool
  NextPage :: "go_int option"
  PreviousPage :: "go_int option"

record 'a PaginatedResult =
  Data :: "'a list"
  Pagination :: PaginationResponse

definition NewPaginationRequest :: "go_int \<Rightarrow> go_int \<Rightarrow> PaginationRequest" where
  "NewPaginationRequest page pageSize =
     (let page1 = (if page <s 1 then 1 else page);
          pageSize1 = (if pageSize <s 1 \<or> 100 <s pageSize then 10 else pageSize)
      in \<lparr>Page = page1, PageSize = pageSize1\<rparr>)"

definition GetOffset :: "PaginationRequest \<Rightarrow> go_int" where
  "GetOffset p = (Page p - 1) * PageSize p"

definition GetLimit :: "PaginationRequest \<Rightarrow> go_int" where
  "GetLimit p = PageSize p"

text \<open>
  \<open>NewPaginationResponse\<close> divides by the page size: a zero page size is the run-time
  panic of Go's integer division.
\<close>

definition NewPaginationResponse ::
    "go_int \<Rightarrow> go_int \<Rightarrow> go_int \<Rightarrow> go_error + PaginationResponse" where
  "NewPaginationResponse page pageSize totalItems =
     (if pageSize = 0 then Inl (Panic ''runtime error: integer divide by zero'')
      else
        let totalPages = go_quot (totalItems + pageSize - 1) pageSize;
            hasNextPage = page <s totalPages;
            hasPrevPage = 1 <s page;
            nextPage = (if hasNextPage then Some (page + 1) else None);
            prevPage = (if hasPrevPage then Some (page - 1) else None)
        in Inr \<lparr>CurrentPage = page, PageSize_resp = pageSize, TotalItems = totalItems,
                 TotalPages = totalPages, HasNextPage = hasNextPage,
                 HasPrevPage = hasPrevPage, NextPage = nextPage, PreviousPage = prevPage\<rparr>)"

text \<open>The bounds the data model states for a request after construction.\<close>

definition normalized :: "PaginationRequest \<Rightarrow> bool" where
  "normalized p \<longleftrightarrow> 1 \<le>s Page p \<and> 1 \<le>s PageSize p \<and> PageSize p \<le>s 100"


section \<open>Entities (package domain)\<close>

record User =
  ID_user :: uint
  Name_user :: string
  Email :: string
  Password :: string
  CreatedAt_user :: timestamp
  UpdatedAt_user :: timestamp
  DeletedAt_user :: "timestamp option"

definition IsValid_user :: "User \<Rightarrow> bool" where
  "IsValid_user u \<longleftrightarrow> Name_user u \<noteq> [] \<and> Email u \<noteq> [] \<and> Password u \<noteq> []"

text \<open>
  The fields a composite literal leaves out take their zero value: the empty string for
  the password hash, the null time for \<open>gorm.DeletedAt\<close>.
\<close>

definition Sanitize_user :: "User \<Rightarrow> User" where
  "Sanitize_user u =
     \<lparr>ID_user = ID_user u, Name_user = Name_user u, Email = Email u, Password = [],
      CreatedAt_user = CreatedAt_user u, UpdatedAt_user = UpdatedAt_user u,
      DeletedAt_user = None\<rparr>"

record Manga =
  ID :: uint
  Name :: string
  Price :: float64
  IsActive :: bool
  UserCreated :: uint
  CreatedAt :: timestamp
  UpdatedAt :: timestamp
  DeletedAt :: "timestamp option"

record CreateMangaRequest =
  Name_cr :: string
  Price_cr :: float64
  IsActive_cr :: bool

record UpdateMangaRequest =
  Name_up :: string
  Price_up :: float64
  IsActive_up :: bool

definition IsValid :: "Manga \<Rightarrow> bool" where
  "IsValid m \<longleftrightarrow> Name m \<noteq> [] \<and> 0 \<le> Price m \<and> 0 < UserCreated m"

definition Sanitize :: "Manga \<Rightarrow> Manga" where
  "Sanitize m =
     \<lparr>ID = ID m, Name = Name m, Price = Price m, IsActive = IsActive m,
      UserCreated = UserCreated m, CreatedAt = CreatedAt m, UpdatedAt = UpdatedAt m,
      DeletedAt = None\<rparr>"


section \<open>The persistent store\<close>

text \<open>
  The repository talks to a PostgreSQL table through GORM. The table is the list of its
  rows in the order a scan of the table yields them; the queries of the repository
  carry no \<open>ORDER BY\<close>, so this is the order their results come in. \<open>last_id\<close> is the
  last value the identifier sequence has handed out, \<open>clock\<close> the time GORM's timestamp
  hooks read, and \<open>faults\<close> the outcomes of the coming database calls that are decided
  outside the program (a lost connection, a timeout): each call consumes one entry,
  \<open>True\<close> meaning that the call fails; an empty list is a database that answers.
\<close>

record db =
  mangas :: "Manga list"
  last_id :: uint
  clock :: timestamp
  faults :: "bool list"

definition db_call :: "db \<Rightarrow> bool \<times> db" where
  "db_call d = (case faults d of [] \<Rightarrow> (True, d) | f # fs \<Rightarrow> (\<not> f, d\<lparr>faults := fs\<rparr>))"

text \<open>
  \<open>Manga\<close> has a \<open>gorm.DeletedAt\<close> field, so every query and update GORM builds for it
  carries \<open>deleted_at IS NULL\<close>.
\<close>

definition scope :: "(Manga \<Rightarrow> bool) \<Rightarrow> db \<Rightarrow> Manga list" where
  "scope cond d = filter (\<lambda>m. cond m \<and> DeletedAt m = None) (mangas d)"

text \<open>
  \<open>Offset(o).Limit(l)\<close>: GORM writes \<open>OFFSET\<close> only for a positive offset and \<open>LIMIT\<close> only
  for a non-negative limit.
\<close>

definition offset_limit :: "go_int \<Rightarrow> go_int \<Rightarrow> 'a list \<Rightarrow> 'a list" where
  "offset_limit ofs lmt xs =
     (let ys = (if 0 <s ofs then drop (nat (sint ofs)) xs else xs)
      in if 0 \<le>s lmt then take (nat (sint lmt)) ys else ys)"

text \<open>
  \<open>INSERT\<close>: a zero primary key is left to the sequence, zero timestamps are set to the
  current time, and the zero value of \<open>IsActive\<close> is replaced by the column default
  (\<open>gorm:"default:true"\<close>); the values written are also set in the struct. A primary key
  that is already in the table is a unique violation.
\<close>

definition insert_row :: "db \<Rightarrow> Manga \<Rightarrow> Manga option \<times> db" where
  "insert_row d m =
     (let d1 = (if ID m = 0 then d\<lparr>last_id := last_id d + 1\<rparr> else d);
          row = m\<lparr>ID := (if ID m = 0 then last_id d + 1 else ID m),
                  IsActive := (if IsActive m then IsActive m else True),
                  CreatedAt := (if CreatedAt m = 0 then clock d else CreatedAt m),
                  UpdatedAt := (if UpdatedAt m = 0 then clock d else UpdatedAt m)\<rparr>
      in if ID row \<in> set (map ID (mangas d)) then (None, d1)
         else (Some row, d1\<lparr>mangas := mangas d @ [row]\<rparr>))"

text \<open>
  \<open>Save\<close>: a zero primary key inserts. Otherwise all fields are written to the rows
  with this key that are not deleted, \<open>UpdatedAt\<close> being set to the current time; when no
  row was affected GORM inserts the record, overwriting on a conflict of the key every
  column but the key and \<open>CreatedAt\<close>.
\<close>

definition save_row :: "db \<Rightarrow> Manga \<Rightarrow> Manga option \<times> db" where
  "save_row d m =
     (if ID m = 0 then insert_row d m
      else
        let m1 = m\<lparr>UpdatedAt := clock d\<rparr>
        in if \<exists>r \<in> set (mangas d). ID r = ID m \<and> DeletedAt r = None
           then (Some m1,
                 d\<lparr>mangas := map (\<lambda>r. if ID r = ID m \<and> DeletedAt r = None then m1 else r)
                                 (mangas d)\<rparr>)
           else if ID m \<in> set (map ID (mangas d))
           then (Some m1,
                 d\<lparr>mangas := map (\<lambda>r. if ID r = ID m then m1\<lparr>CreatedAt := CreatedAt r\<rparr> else r)
                                 (mangas d)\<rparr>)
           else insert_row d m1)"


section \<open>The manga repository (package repositories)\<close>

definition Create :: "db \<Rightarrow> Manga \<Rightarrow> (go_error + Manga) \<times> db" where
  "Create d manga =
     (case db_call d of
        (False, d1) \<Rightarrow> (Inl (Err ''failed to create manga''), d1)
      | (True, d1) \<Rightarrow>
          (case insert_row d1 manga of
             (None, d2) \<Rightarrow> (Inl (Err ''failed to create manga''), d2)
           | (Some row, d2) \<Rightarrow> (Inr row, d2)))"

definition GetByID :: "db \<Rightarrow> uint \<Rightarrow> (go_error + Manga) \<times> db" where
  "GetByID d mid =
     (case db_call d of
        (False, d1) \<Rightarrow> (Inl (Err ''failed to get manga''), d1)
      | (True, d1) \<Rightarrow>
          (case find (\<lambda>m. ID m = mid \<and> DeletedAt m = None) (mangas d1) of
             None \<Rightarrow> (Inl (Err ''manga not found''), d1)
           | Some manga \<Rightarrow> (Inr manga, d1)))"

definition Update :: "db \<Rightarrow> Manga \<Rightarrow> (go_error + Manga) \<times> db" where
  "Update d manga =
     (case db_call d of
        (False, d1) \<Rightarrow> (Inl (Err ''failed to update manga''), d1)
      | (True, d1) \<Rightarrow>
          (case save_row d1 manga of
             (None, d2) \<Rightarrow> (Inl (Err ''failed to update manga''), d2)
           | (Some row, d2) \<Rightarrow> (Inr row, d2)))"

text \<open>\<open>Delete\<close> on a model with \<open>gorm.DeletedAt\<close> marks the rows instead of removing them.\<close>

definition Delete :: "db \<Rightarrow> uint \<Rightarrow> go_error option \<times> db" where
  "Delete d mid =
     (case db_call d of
        (False, d1) \<Rightarrow> (Some (Err ''failed to delete manga''), d1)
      | (True, d1) \<Rightarrow>
          (None,
           d1\<lparr>mangas := map (\<lambda>r. if ID r = mid \<and> DeletedAt r = None
                                  then r\<lparr>DeletedAt := Some (clock d1)\<rparr> else r)
                            (mangas d1)\<rparr>))"

text \<open>
  The four list queries are one \<open>Find\<close> under a condition; they differ in the condition
  and in the message.
\<close>

definition list_query ::
    "(Manga \<Rightarrow> bool) \<Rightarrow> string \<Rightarrow> db \<Rightarrow> (go_error + Manga list) \<times> db" where
  "list_query cond msg d =
     (case db_call d of
        (False, d1) \<Rightarrow> (Inl (Err msg), d1)
      | (True, d1) \<Rightarrow> (Inr (scope cond d1), d1))"

definition GetByUserID :: "db \<Rightarrow> uint \<Rightarrow> (go_error + Manga list) \<times> db" where
  "GetByUserID d userID =
     list_query (\<lambda>m. UserCreated m = userID) ''failed to get user mangas'' d"

definition List_repo :: "db \<Rightarrow> (go_error + Manga list) \<times> db" where
  "List_repo d = list_query (\<lambda>m. True) ''failed to get mangas'' d"

definition GetActiveMangas_repo :: "db \<Rightarrow> (go_error + Manga list) \<times> db" where
  "GetActiveMangas_repo d =
     list_query (\<lambda>m. IsActive m = True) ''failed to get active mangas'' d"

definition GetMangasByPriceRange_repo ::
    "db \<Rightarrow> float64 \<Rightarrow> float64 \<Rightarrow> (go_error + Manga list) \<times> db" where
  "GetMangasByPriceRange_repo d lo hi =
     list_query (\<lambda>m. lo \<le> Price m \<and> Price m \<le> hi)
       ''failed to get mangas by price range'' d"

text \<open>
  The four paginated queries have one shape: count the rows under the condition, then
  fetch the window under the same condition. They differ in the condition and in the
  two messages.
\<close>

definition paginated_query ::
    "(Manga \<Rightarrow> bool) \<Rightarrow> string \<Rightarrow> string \<Rightarrow> db \<Rightarrow> PaginationRequest
       \<Rightarrow> (go_error + Manga list \<times> go_int) \<times> db" where
  "paginated_query cond count_msg find_msg d pagination =
     (case db_call d of
        (False, d1) \<Rightarrow> (Inl (Err count_msg), d1)
      | (True, d1) \<Rightarrow>
          (let totalItems = (of_nat (length (scope cond d1)) :: go_int);
               offset = GetOffset pagination;
               limit = GetLimit pagination
           in case db_call d1 of
                (False, d2) \<Rightarrow> (Inl (Err find_msg), d2)
              | (True, d2) \<Rightarrow>
                  (Inr (offset_limit offset limit (scope cond d2), totalItems), d2)))"

definition ListPaginated ::
    "db \<Rightarrow> PaginationRequest \<Rightarrow> (go_error + Manga list \<times> go_int) \<times> db" where
  "ListPaginated =
     paginated_query (\<lambda>m. True) ''failed to count mangas'' ''failed to get paginated mangas''"

definition GetActiveMangasPaginated_repo ::
    "db \<Rightarrow> PaginationRequest \<Rightarrow> (go_error + Manga list \<times> go_int) \<times> db" where
  "GetActiveMangasPaginated_repo =
     paginated_query (\<lambda>m. IsActive m = True)
       ''failed to count active mangas'' ''failed to get paginated active mangas''"

definition GetMangasByUserIDPaginated ::
    "uint \<Rightarrow> db \<Rightarrow> PaginationRequest \<Rightarrow> (go_error + Manga list \<times> go_int) \<times> db" where
  "GetMangasByUserIDPaginated userID =
     paginated_query (\<lambda>m. UserCreated m = userID)
       ''failed to count user mangas'' ''failed to get paginated user mangas''"

definition GetMangasByPriceRangePaginated_repo ::
    "float64 \<Rightarrow> float64 \<Rightarrow> db \<Rightarrow> PaginationRequest
       \<Rightarrow> (go_error + Manga list \<times> go_int) \<times> db" where
  "GetMangasByPriceRangePaginated_repo lo hi =
     paginated_query (\<lambda>m. lo \<le> Price m \<and> Price m \<le> hi)
       ''failed to count mangas by price range''
       ''failed to get paginated mangas by price range''"


section \<open>The manga service (package services)\<close>

definition CreateManga ::
    "db \<Rightarrow> CreateMangaRequest \<Rightarrow> uint \<Rightarrow> (go_error + Manga) \<times> db" where
  "CreateManga d req userID =
     (let manga = \<lparr>ID = 0, Name = Name_cr req, Price = Price_cr req,
                   IsActive = IsActive_cr req, UserCreated = userID,
                   CreatedAt = 0, UpdatedAt = 0, DeletedAt = None\<rparr>
      in if \<not> IsValid manga then (Inl (Err ''invalid manga data''), d)
         else case Create d manga of
                (Inl err, d1) \<Rightarrow> (Inl err, d1)
              | (Inr row, d1) \<Rightarrow> (Inr (Sanitize row), d1))"

definition GetMangaByID :: "db \<Rightarrow> uint \<Rightarrow> (go_error + Manga) \<times> db" where
  "GetMangaByID d mid =
     (case GetByID d mid of
        (Inl err, d1) \<Rightarrow> (Inl err, d1)
      | (Inr manga, d1) \<Rightarrow> (Inr (Sanitize manga), d1))"

definition UpdateManga ::
    "db \<Rightarrow> uint \<Rightarrow> UpdateMangaRequest \<Rightarrow> uint \<Rightarrow> (go_error + Manga) \<times> db" where
  "UpdateManga d mid req userID =
     (case GetByID d mid of
        (Inl err, d1) \<Rightarrow> (Inl err, d1)
      | (Inr manga, d1) \<Rightarrow>
          if UserCreated manga \<noteq> userID
          then (Inl (Err ''access denied: you can only update your own manga''), d1)
          else
            (let manga1 = manga\<lparr>Name := Name_up req, Price := Price_up req,
                                IsActive := IsActive_up req\<rparr>
             in (case Update d1 manga1 of
                   (Inl err, d2) \<Rightarrow> (Inl err, d2)
                 | (Inr row, d2) \<Rightarrow> (Inr (Sanitize row), d2))))"

definition DeleteManga :: "db \<Rightarrow> uint \<Rightarrow> uint \<Rightarrow> go_error option \<times> db" where
  "DeleteManga d mid userID =
     (case GetByID d mid of
        (Inl err, d1) \<Rightarrow> (Some err, d1)
      | (Inr manga, d1) \<Rightarrow>
          if UserCreated manga \<noteq> userID
          then (Some (Err ''access denied: you can only delete your own manga''), d1)
          else Delete d1 mid)"

text \<open>The list operations sanitize every row the repository returned.\<close>

definition sanitized_list ::
    "(go_error + Manga list) \<times> db \<Rightarrow> (go_error + Manga list) \<times> db" where
  "sanitized_list answer =
     (case answer of
        (Inl err, d1) \<Rightarrow> (Inl err, d1)
      | (Inr rows, d1) \<Rightarrow> (Inr (map Sanitize rows), d1))"

definition GetMangas :: "db \<Rightarrow> (go_error + Manga list) \<times> db" where
  "GetMangas d = sanitized_list (List_repo d)"

definition GetMangasByUser :: "db \<Rightarrow> uint \<Rightarrow> (go_error + Manga list) \<times> db" where
  "GetMangasByUser d userID = sanitized_list (GetByUserID d userID)"

definition GetActiveMangas :: "db \<Rightarrow> (go_error + Manga list) \<times> db" where
  "GetActiveMangas d = sanitized_list (GetActiveMangas_repo d)"

definition GetMangasByPriceRange ::
    "db \<Rightarrow> float64 \<Rightarrow> float64 \<Rightarrow> (go_error + Manga list) \<times> db" where
  "GetMangasByPriceRange d lo hi = sanitized_list (GetMangasByPriceRange_repo d lo hi)"

text \<open>
  The four paginated service operations sanitize what the repository returned and
  attach the metadata computed from the request and the count.
\<close>

definition paginated_result ::
    "(go_error + Manga list \<times> go_int) \<times> db \<Rightarrow> PaginationRequest
       \<Rightarrow> (go_error + Manga PaginatedResult) \<times> db" where
  "paginated_result answer pagination =
     (case answer of
        (Inl err, d1) \<Rightarrow> (Inl err, d1)
      | (Inr (rows, totalItems), d1) \<Rightarrow>
          (case NewPaginationResponse (Page pagination) (PageSize pagination) totalItems of
             Inl err \<Rightarrow> (Inl err, d1)
           | Inr paginationMeta \<Rightarrow>
               (Inr \<lparr>Data = map Sanitize rows, Pagination = paginationMeta\<rparr>, d1)))"

definition GetMangasPaginated ::
    "db \<Rightarrow> PaginationRequest \<Rightarrow> (go_error + Manga PaginatedResult) \<times> db" where
  "GetMangasPaginated d pagination = paginated_result (ListPaginated d pagination) pagination"

definition GetActiveMangasPaginated ::
    "db \<Rightarrow> PaginationRequest \<Rightarrow> (go_error + Manga PaginatedResult) \<times> db" where
  "GetActiveMangasPaginated d pagination =
     paginated_result (GetActiveMangasPaginated_repo d pagination) pagination"

definition GetMangasByUserPaginated ::
    "db \<Rightarrow> uint \<Rightarrow> PaginationRequest \<Rightarrow> (go_error + Manga PaginatedResult) \<times> db" where
  "GetMangasByUserPaginated d userID pagination =
     paginated_result (GetMangasByUserIDPaginated userID d pagination) pagination"

definition GetMangasByPriceRangePaginated ::
    "db \<Rightarrow> float64 \<Rightarrow> float64 \<Rightarrow> PaginationRequest
       \<Rightarrow> (go_error + Manga PaginatedResult) \<times> db" where
  "GetMangasByPriceRangePaginated d lo hi pagination =
     paginated_result (GetMangasByPriceRangePaginated_repo lo hi d pagination) pagination"

section \<open>Vocabulary of the statements\<close>

text \<open>
  What an accepted update writes: the three fields of the request over the record read,
  and the time of the write.
\<close>

definition updated_fields :: "Manga \<Rightarrow> UpdateMangaRequest \<Rightarrow> timestamp \<Rightarrow> Manga" where
  "updated_fields manga req t =
     manga\<lparr>Name := Name_up req, Price := Price_up req, IsActive := IsActive_up req,
           UpdatedAt := t\<rparr>"

text \<open>The record CreateManga builds from a request and the acting user.\<close>

definition new_manga :: "CreateMangaRequest \<Rightarrow> uint \<Rightarrow> Manga" where
  "new_manga req userID =
     \<lparr>ID = 0, Name = Name_cr req, Price = Price_cr req, IsActive = IsActive_cr req,
      UserCreated = userID, CreatedAt = 0, UpdatedAt = 0, DeletedAt = None\<rparr>"

text \<open>The window of a request over a list of rows, by the offset and limit the code computes.\<close>

definition window :: "PaginationRequest \<Rightarrow> 'a list \<Rightarrow> 'a list" where
  "window p xs = take (nat (sint (GetLimit p))) (drop (nat (sint (GetOffset p))) xs)"


text \<open>Metadata that reflects a count of \<open>n\<close> matching items on a page past the last one.\<close>

definition reflects_total :: "PaginationRequest \<Rightarrow> nat \<Rightarrow> PaginationResponse \<Rightarrow> bool" where
  "reflects_total p n meta \<longleftrightarrow>
     sint (TotalItems meta) = int n
     \<and> sint (TotalPages meta) = \<lceil>real n / real_of_int (sint (PageSize p))\<rceil>
     \<and> \<not> HasNextPage meta \<and> NextPage meta = None"

text \<open>Example data: a store of one item owned by user 5, and a table of \<open>n\<close> items.\<close>

definition example_manga :: Manga where
  "example_manga =
     \<lparr>ID = 1, Name = ''Akira'', Price = 250, IsActive = True, UserCreated = 5,
      CreatedAt = 10, UpdatedAt = 10, DeletedAt = None\<rparr>"

definition example_db :: db where
  "example_db = \<lparr>mangas = [example_manga], last_id = 1, clock = 20, faults = []\<rparr>"

definition example_update :: UpdateMangaRequest where
  "example_update = \<lparr>Name_up = ''Akira 2'', Price_up = 300, IsActive_up = False\<rparr>"

definition numbered_manga :: "nat \<Rightarrow> Manga" where
  "numbered_manga n =
     \<lparr>ID = n, Name = ''Volume'', Price = 100, IsActive = True, UserCreated = 5,
      CreatedAt = 10, UpdatedAt = 10, DeletedAt = None\<rparr>"

definition table_db :: "nat list \<Rightarrow> db" where
  "table_db ids =
     \<lparr>mangas = map numbered_manga ids, last_id = fold max ids 0, clock = 20, faults = []\<rparr>"


section \<open>Arithmetic of 64-bit integers\<close>

lemma sint_bounds64: "- (2^63) \<le> sint (w::go_int)" "sint (w::go_int) < 2^63"
  using sint_ge [of w] sint_lt [of w] by simp_all

lemma sint_wi64:
  "- (2^63) \<le> k \<Longrightarrow> k < 2^63 \<Longrightarrow> sint (word_of_int k :: go_int) = k"
  by (simp add: sint_sbintrunc' signed_take_bit_int_eq_self)

lemma sint_of_nat64: "int n < 2^63 \<Longrightarrow> sint (of_nat n :: go_int) = int n"
  using sint_wi64 [of "int n"] by simp

lemma ceil_div0: "0 < (p::int) \<Longrightarrow> (t + p - 1) div p = - ((- t) div p)"
proof -
  assume p: "0 < p"
  have m: "0 \<le> t mod p" "t mod p < p" using p by simp_all
  have "t + p - 1 = (t mod p + p - 1) + (t div p) * p" by simp
  then have "(t + p - 1) div p = (t mod p + p - 1) div p + t div p"
    using p by (metis div_mult_self1 less_irrefl add.commute)
  moreover have "(t mod p + p - 1) div p = (if t mod p = 0 then 0 else 1)"
  proof (cases "t mod p = 0")
    case True
    then show ?thesis using p by simp
  next
    case False
    then have "t mod p + p - 1 = (t mod p - 1) + 1 * p" "0 \<le> t mod p - 1" "t mod p - 1 < p"
      using m by simp_all
    then have "(t mod p + p - 1) div p = 1"
      by (metis add.left_neutral div_mult_self1 div_pos_pos_trivial less_irrefl p add.commute)
    with False show ?thesis by simp
  qed
  ultimately show ?thesis using p by (simp add: zdiv_zminus1_eq_if)
qed

lemma ceil_div:
  "0 < (p::int) \<Longrightarrow> 0 \<le> t \<Longrightarrow> (t + p - 1) sdiv p = \<lceil>real_of_int t / real_of_int p\<rceil>"
  by (simp add: signed_divide_int_def ceiling_divide_eq_div ceil_div0 sgn_if)

lemma quot_ceil:
  assumes ps: "1 \<le>s ps" "ps \<le>s 100" and t: "0 \<le>s ti" "sint ti + sint ps - 1 < 2^63"
  shows "sint (go_quot (ti + ps - 1) ps) = \<lceil>real_of_int (sint ti) / real_of_int (sint ps)\<rceil>"
proof -
  have p: "1 \<le> sint ps" "sint ps \<le> 100" and t0: "0 \<le> sint ti"
    using ps t by (simp_all add: word_sle_eq)
  have "ti + ps - 1 = word_of_int (sint ti + sint ps - 1)"
    by simp
  then have b: "sint (ti + ps - 1) = sint ti + sint ps - 1"
    using sint_wi64 [of "sint ti + sint ps - 1"] p t0 t(2) by simp
  let ?q = "(sint ti + sint ps - 1) sdiv sint ps"
  have q: "?q = \<lceil>real_of_int (sint ti) / real_of_int (sint ps)\<rceil>"
    using ceil_div [of "sint ps" "sint ti"] p t0 by simp
  have qd: "?q = (sint ti + sint ps - 1) div sint ps"
    using p t0 by (simp add: signed_divide_int_def sgn_if)
  then have "0 \<le> ?q"
    using p t0 by (simp add: pos_imp_zdiv_nonneg_iff)
  moreover have "?q \<le> sint ti + sint ps - 1"
  proof (cases "0 < sint ti + sint ps - 1")
    case True
    then show ?thesis unfolding qd by (rule int_div_le_self)
  next
    case False
    then have "sint ti + sint ps - 1 = 0" using p t0 by simp
    then show ?thesis unfolding qd by simp
  qed
  ultimately have "sint (word_of_int ?q :: go_int) = ?q"
    using t(2) by (intro sint_wi64) simp_all
  then show ?thesis using b q by (simp add: go_quot_def)
qed

section \<open>Pagination calculator\<close>

text \<open>
  Claim C3. For every pair of integers \<open>page\<close>, \<open>pageSize\<close>: a page of at least 1 and a
  page size within 1..100 come back unchanged; a page below 1 becomes 1; a page size
  below 1 or above 100 becomes 10; and the request built always has a page of at least 1
  and a page size within 1..100.
\<close>

theorem normalize_clamps:
  "(1 \<le>s page \<and> 1 \<le>s pageSize \<and> pageSize \<le>s 100 \<longrightarrow>
      NewPaginationRequest page pageSize = \<lparr>Page = page, PageSize = pageSize\<rparr>)
   \<and> (page <s 1 \<longrightarrow> Page (NewPaginationRequest page pageSize) = 1)
   \<and> (pageSize <s 1 \<or> 100 <s pageSize \<longrightarrow> PageSize (NewPaginationRequest page pageSize) = 10)
   \<and> normalized (NewPaginationRequest page pageSize)"
  by (auto simp: NewPaginationRequest_def normalized_def Let_def word_sle_eq word_sless_alt)

theorem normalize_clamps_witness:
  "NewPaginationRequest 3 25 = \<lparr>Page = 3, PageSize = 25\<rparr>
   \<and> Page (NewPaginationRequest (- 4) 101) = 1
   \<and> PageSize (NewPaginationRequest (- 4) 101) = 10
   \<and> PageSize (NewPaginationRequest 7 0) = 10"
  using normalize_clamps [of 3 25] normalize_clamps [of "- 4" 101] normalize_clamps [of 7 0]
  by (simp add: word_sle_eq word_sless_alt)

text \<open>
  Claim C4, amended. For every page of at least 1, page size within 1..100 and
  non-negative total whose sum \<open>totalItems + pageSize - 1\<close> still fits a 64-bit integer,
  the response is built, its number of pages is the ceiling of total over page size (0
  for no items), there is a next page exactly when the page is below the number of
  pages, a previous page exactly when the page is above 1, and \<open>NextPage\<close> and
  \<open>PreviousPage\<close> are set exactly when their flag is, to the page plus one and minus one.
\<close>

theorem response_metadata:
  assumes "1 \<le>s page" "1 \<le>s pageSize" "pageSize \<le>s 100" "0 \<le>s totalItems"
    and "sint totalItems + sint pageSize - 1 < 2^63"
  shows "\<exists>r. NewPaginationResponse page pageSize totalItems = Inr r
     \<and> sint (TotalPages r) = \<lceil>real_of_int (sint totalItems) / real_of_int (sint pageSize)\<rceil>
     \<and> (totalItems = 0 \<longrightarrow> TotalPages r = 0)
     \<and> HasNextPage r = (sint page < sint (TotalPages r))
     \<and> HasPrevPage r = (1 < sint page)
     \<and> (case NextPage r of None \<Rightarrow> \<not> HasNextPage r
         | Some n \<Rightarrow> HasNextPage r \<and> sint n = sint page + 1)
     \<and> (case PreviousPage r of None \<Rightarrow> \<not> HasPrevPage r
         | Some n \<Rightarrow> HasPrevPage r \<and> sint n = sint page - 1)"
proof -
  have nz: "pageSize \<noteq> 0" using assms(2) by (auto simp: word_sle_eq)
  let ?tp = "go_quot (totalItems + pageSize - 1) pageSize"
  have tp: "sint ?tp = \<lceil>real_of_int (sint totalItems) / real_of_int (sint pageSize)\<rceil>"
    using assms by (intro quot_ceil)
  have pg: "1 \<le> sint page" using assms(1) by (simp add: word_sle_eq)
  have "page + 1 = word_of_int (sint page + 1)" by simp
  then have nx: "sint page < sint ?tp \<Longrightarrow> sint (page + 1) = sint page + 1"
    using sint_wi64 [of "sint page + 1"] pg sint_bounds64 [of ?tp] by simp
  have "page - 1 = word_of_int (sint page - 1)" by simp
  then have pv: "sint (page - 1) = sint page - 1"
    using sint_wi64 [of "sint page - 1"] pg sint_bounds64 [of page] by simp
  have z: "totalItems = 0 \<Longrightarrow> ?tp = 0"
  proof -
    assume "totalItems = 0"
    then have "sint ?tp = 0" using tp by simp
    then show "?tp = 0" by (simp add: signed_eq_0_iff)
  qed
  show ?thesis
    using nz tp nx pv z
    by (simp add: NewPaginationResponse_def Let_def word_sless_alt)
qed

theorem response_metadata_witness:
  "\<exists>r. NewPaginationResponse 3 10 25 = Inr r
     \<and> sint (TotalPages r) = \<lceil>real_of_int (sint (25::go_int)) / real_of_int (sint (10::go_int))\<rceil>
     \<and> ((25::go_int) = 0 \<longrightarrow> TotalPages r = 0)
     \<and> HasNextPage r = (sint (3::go_int) < sint (TotalPages r))
     \<and> HasPrevPage r = (1 < sint (3::go_int))
     \<and> (case NextPage r of None \<Rightarrow> \<not> HasNextPage r
         | Some n \<Rightarrow> HasNextPage r \<and> sint n = sint (3::go_int) + 1)
     \<and> (case PreviousPage r of None \<Rightarrow> \<not> HasPrevPage r
         | Some n \<Rightarrow> HasPrevPage r \<and> sint n = sint (3::go_int) - 1)"
  by (rule response_metadata) (simp_all add: word_sle_eq)

text \<open>
  Claim C4 as stated fails where the sum wraps around: for \<open>2^63 - 1\<close> items in pages
  of 2 the number of pages computed is \<open>- 2^62\<close>, the ceiling is \<open>2^62\<close>.
\<close>

theorem response_total_pages_overflow:
  "(1::go_int) \<le>s 1 \<and> (1::go_int) \<le>s 2 \<and> (2::go_int) \<le>s 100
   \<and> (0::go_int) \<le>s 0x7FFFFFFFFFFFFFFF
   \<and> map_sum (\<lambda>e. e) (\<lambda>r. sint (TotalPages r)) (NewPaginationResponse 1 2 0x7FFFFFFFFFFFFFFF)
       = Inr (- 0x4000000000000000)
   \<and> \<lceil>real_of_int (sint (0x7FFFFFFFFFFFFFFF::go_int)) / real_of_int (sint (2::go_int))\<rceil>
       = 0x4000000000000000"
  by (simp add: NewPaginationResponse_def Let_def go_quot_def word_sless_alt word_sle_eq
      signed_divide_int_def)



text \<open>
  Claim C5, amended. For every normalized request, no items give a response with zero
  pages and no next page; it has a previous page exactly when the page is above 1, so
  none on page 1.
\<close>

theorem empty_total_metadata:
  assumes "normalized p"
  shows "\<exists>r. NewPaginationResponse (Page p) (PageSize p) 0 = Inr r
     \<and> TotalItems r = 0 \<and> TotalPages r = 0 \<and> \<not> HasNextPage r \<and> NextPage r = None
     \<and> HasPrevPage r = (1 <s Page p)
     \<and> (Page p = 1 \<longrightarrow> \<not> HasPrevPage r \<and> PreviousPage r = None)"
proof -
  have b: "1 \<le> sint (Page p)" "1 \<le> sint (PageSize p)" "sint (PageSize p) \<le> 100"
    using assms by (simp_all add: normalized_def word_sle_eq)
  then have nz: "PageSize p \<noteq> 0" by auto
  have "sint (PageSize p - 1) = sint (PageSize p) - 1"
    using sint_wi64 [of "sint (PageSize p) - 1"] b by simp
  then have "sint (PageSize p - 1) sdiv sint (PageSize p) = 0"
    using b by (simp add: signed_divide_int_def sgn_if)
  then have q: "go_quot (0 + PageSize p - 1) (PageSize p) = 0"
    by (simp add: go_quot_def)
  show ?thesis
    using nz q b by (simp add: NewPaginationResponse_def Let_def word_sless_alt)
qed

theorem empty_total_metadata_witness:
  "\<exists>r. NewPaginationResponse 1 10 0 = Inr r
     \<and> TotalItems r = 0 \<and> TotalPages r = 0 \<and> \<not> HasNextPage r \<and> NextPage r = None
     \<and> \<not> HasPrevPage r \<and> PreviousPage r = None"
  using empty_total_metadata [of "\<lparr>Page = 1, PageSize = 10\<rparr>"]
  by (simp add: normalized_def word_sle_eq word_sless_alt)

text \<open>
  Claim C5 as stated fails on every page after the first: page 2 of no items has a
  previous page.
\<close>

theorem empty_total_has_prev_page:
  "normalized \<lparr>Page = 2, PageSize = 10\<rparr>
   \<and> map_sum (\<lambda>e. e) HasPrevPage (NewPaginationResponse 2 10 0) = Inr True
   \<and> map_sum (\<lambda>e. e) PreviousPage (NewPaginationResponse 2 10 0) = Inr (Some 1)"
  by (simp add: normalized_def NewPaginationResponse_def Let_def go_quot_def word_sless_alt
      word_sle_eq signed_divide_int_def)

text \<open>
  Claim C6, amended. For every normalized request whose product
  \<open>(page - 1) * page_size\<close> fits a 64-bit integer, the offset is that product and the
  limit is the page size; page 3 in pages of 10 starts at offset 20.
\<close>

theorem offset_of_request:
  assumes "normalized p" "(sint (Page p) - 1) * sint (PageSize p) < 2^63"
  shows "sint (GetOffset p) = (sint (Page p) - 1) * sint (PageSize p)
     \<and> GetLimit p = PageSize p
     \<and> GetOffset \<lparr>Page = 3, PageSize = 10\<rparr> = 20"
proof -
  have b: "1 \<le> sint (Page p)" "1 \<le> sint (PageSize p)"
    using assms(1) by (simp_all add: normalized_def word_sle_eq)
  have "(Page p - 1) * PageSize p = word_of_int ((sint (Page p) - 1) * sint (PageSize p))"
    by simp
  moreover have "0 \<le> (sint (Page p) - 1) * sint (PageSize p)"
    using b by simp
  ultimately have "sint (GetOffset p) = (sint (Page p) - 1) * sint (PageSize p)"
    using sint_wi64 [of "(sint (Page p) - 1) * sint (PageSize p)"] assms(2)
    by (simp add: GetOffset_def)
  then show ?thesis by (simp add: GetLimit_def GetOffset_def)
qed

theorem offset_of_request_witness:
  "sint (GetOffset \<lparr>Page = 999, PageSize = 10\<rparr>) = 9980
   \<and> GetLimit \<lparr>Page = 999, PageSize = 10\<rparr> = 10"
  using offset_of_request [of "\<lparr>Page = 999, PageSize = 10\<rparr>"]
  by (simp add: normalized_def word_sle_eq)

text \<open>
  Claim C6 as stated fails where the product wraps around: page \<open>2^62 + 1\<close> in pages
  of 4 is a normalized request, its product is \<open>2^64\<close>, and the offset computed is 0.
\<close>

theorem offset_wraps_around:
  "normalized (NewPaginationRequest 0x4000000000000001 4)
   \<and> GetOffset (NewPaginationRequest 0x4000000000000001 4) = 0
   \<and> (sint (Page (NewPaginationRequest 0x4000000000000001 4)) - 1)
        * sint (PageSize (NewPaginationRequest 0x4000000000000001 4)) = 0x10000000000000000"
  by (simp add: normalized_def NewPaginationRequest_def GetOffset_def word_sle_eq word_sless_alt)


section \<open>Ownership-scoped mutation\<close>

lemma db_call_fields:
  "db_call d = (ok, d1) \<Longrightarrow> mangas d1 = mangas d \<and> clock d1 = clock d \<and> last_id d1 = last_id d"
  by (auto simp: db_call_def split: list.splits)

lemma db_call_answers: "faults d = [] \<Longrightarrow> db_call d = (True, d)"
  by (simp add: db_call_def)

lemma GetByID_found:
  assumes "GetByID d mid = (Inr manga, d1)"
  shows "find (\<lambda>m. ID m = mid \<and> DeletedAt m = None) (mangas d) = Some manga"
    and "mangas d1 = mangas d" and "clock d1 = clock d" and "last_id d1 = last_id d"
    and "db_call d = (True, d1)"
  using assms db_call_fields [of d]
  by (auto simp: GetByID_def split: prod.splits bool.splits option.splits)

lemma GetByID_row:
  assumes "GetByID d mid = (Inr manga, d1)"
  shows "ID manga = mid" and "DeletedAt manga = None" and "manga \<in> set (mangas d)"
  using GetByID_found(1) [OF assms] by (auto simp: find_Some_iff)

lemma GetByID_answers:
  "faults d = [] \<Longrightarrow> GetByID d mid =
     (case find (\<lambda>m. ID m = mid \<and> DeletedAt m = None) (mangas d) of
        None \<Rightarrow> (Inl (Err ''manga not found''), d) | Some manga \<Rightarrow> (Inr manga, d))"
  by (simp add: GetByID_def db_call_answers)

lemma find_replaced:
  "P y \<Longrightarrow> find P (map (\<lambda>r. if P r then y else r) xs) = (if \<exists>x\<in>set xs. P x then Some y else None)"
  by (induction xs) auto

lemma find_marked:
  "(\<And>r. \<not> P (g r)) \<Longrightarrow> find P (map (\<lambda>r. if P r then g r else r) xs) = None"
  by (induction xs) auto

lemma save_row_live:
  assumes "ID m \<noteq> 0" "\<exists>r\<in>set (mangas d). ID r = ID m \<and> DeletedAt r = None"
  shows "save_row d m =
     (Some (m\<lparr>UpdatedAt := clock d\<rparr>),
      d\<lparr>mangas := map (\<lambda>r. if ID r = ID m \<and> DeletedAt r = None then m\<lparr>UpdatedAt := clock d\<rparr> else r)
                      (mangas d)\<rparr>)"
  using assms by (simp add: save_row_def Let_def)

lemma UpdateManga_owner:
  assumes g: "GetByID d mid = (Inr manga, d1)" and o: "UserCreated manga = userID" and "0 < mid"
  shows "UpdateManga d mid req userID =
     (case db_call d1 of
        (False, d2) \<Rightarrow> (Inl (Err ''failed to update manga''), d2)
      | (True, d2) \<Rightarrow>
          (Inr (Sanitize (updated_fields manga req (clock d))),
           d2\<lparr>mangas := map (\<lambda>r. if ID r = mid \<and> DeletedAt r = None
                                  then updated_fields manga req (clock d) else r) (mangas d)\<rparr>))"
proof -
  let ?m1 = "manga\<lparr>Name := Name_up req, Price := Price_up req, IsActive := IsActive_up req\<rparr>"
  obtain ok d2 where c: "db_call d1 = (ok, d2)" by (cases "db_call d1")
  have f: "mangas d2 = mangas d" "clock d2 = clock d"
    using db_call_fields [OF c] GetByID_found(2,3) [OF g] by simp_all
  have r: "ID ?m1 = mid" "ID ?m1 \<noteq> 0" "\<exists>r\<in>set (mangas d2). ID r = ID ?m1 \<and> DeletedAt r = None"
    using GetByID_row [OF g] f \<open>0 < mid\<close> by auto
  have s: "save_row d2 ?m1 =
     (Some (?m1\<lparr>UpdatedAt := clock d\<rparr>),
      d2\<lparr>mangas := map (\<lambda>r. if ID r = mid \<and> DeletedAt r = None then ?m1\<lparr>UpdatedAt := clock d\<rparr> else r)
                      (mangas d)\<rparr>)"
    using save_row_live [OF r(2,3)] r(1) f by simp
  show ?thesis
    using g o c s by (cases ok) (simp_all add: UpdateManga_def Update_def updated_fields_def)
qed

lemma UpdateManga_accepted:
  assumes "UpdateManga d mid req userID = (Inr result, d2)" "0 < mid"
  shows "\<exists>manga d1. GetByID d mid = (Inr manga, d1) \<and> UserCreated manga = userID
     \<and> result = Sanitize (updated_fields manga req (clock d))
     \<and> mangas d2 = map (\<lambda>r. if ID r = mid \<and> DeletedAt r = None
                               then updated_fields manga req (clock d) else r) (mangas d)"
proof -
  obtain res d1 where g: "GetByID d mid = (res, d1)" by (cases "GetByID d mid")
  from assms(1) g obtain manga where m: "res = Inr manga" and o: "UserCreated manga = userID"
    by (cases res) (auto simp: UpdateManga_def split: if_splits)
  have "GetByID d mid = (Inr manga, d1)" using g m by simp
  from UpdateManga_owner [OF this o assms(2), of req] assms(1) this o
  show ?thesis
    by (auto split: prod.splits bool.splits)
qed

lemma stored_after_update:
  assumes "find (\<lambda>m. ID m = mid \<and> DeletedAt m = None) xs = Some manga"
  shows "find (\<lambda>m. ID m = mid \<and> DeletedAt m = None)
           (map (\<lambda>r. if ID r = mid \<and> DeletedAt r = None then updated_fields manga req t else r) xs)
         = Some (updated_fields manga req t)"
proof -
  have p: "ID (updated_fields manga req t) = mid \<and> DeletedAt (updated_fields manga req t) = None"
    using assms by (auto simp: find_Some_iff updated_fields_def)
  have "\<exists>x\<in>set xs. ID x = mid \<and> DeletedAt x = None"
    using assms by (auto simp: find_Some_iff)
  then show ?thesis
    using find_replaced [of "\<lambda>m. ID m = mid \<and> DeletedAt m = None" "updated_fields manga req t" xs] p
    by simp
qed


lemma DeleteManga_owner:
  assumes g: "GetByID d mid = (Inr manga, d1)" and o: "UserCreated manga = userID"
  shows "DeleteManga d mid userID = Delete d1 mid"
  using g o by (simp add: DeleteManga_def)

lemma Delete_answers:
  "faults d = [] \<Longrightarrow> Delete d mid =
     (None, d\<lparr>mangas := map (\<lambda>r. if ID r = mid \<and> DeletedAt r = None
                                 then r\<lparr>DeletedAt := Some (clock d)\<rparr> else r) (mangas d)\<rparr>)"
  by (simp add: Delete_def db_call_answers)

text \<open>
  Claim C1. For every item found under an identifier and every acting user: when the
  owner is another user, UpdateManga and DeleteManga return their access-denied error
  and the table is as it was; when the owner is the acting user they go on to the
  repository's Update and Delete, and on a database that answers the update is stored
  and the deleted item is no longer found.
\<close>

theorem ownership_guard:
  assumes "GetByID d mid = (Inr manga, d1)"
  shows "(UserCreated manga \<noteq> userID \<longrightarrow>
            UpdateManga d mid req userID
              = (Inl (Err ''access denied: you can only update your own manga''), d1)
          \<and> DeleteManga d mid userID
              = (Some (Err ''access denied: you can only delete your own manga''), d1)
          \<and> mangas d1 = mangas d)
       \<and> (UserCreated manga = userID \<longrightarrow>
            UpdateManga d mid req userID
              = (case Update d1 (manga\<lparr>Name := Name_up req, Price := Price_up req,
                                       IsActive := IsActive_up req\<rparr>) of
                   (Inl err, d2) \<Rightarrow> (Inl err, d2)
                 | (Inr row, d2) \<Rightarrow> (Inr (Sanitize row), d2))
          \<and> DeleteManga d mid userID = Delete d1 mid)
       \<and> (UserCreated manga = userID \<and> 0 < mid \<and> faults d = [] \<longrightarrow>
            fst (UpdateManga d mid req userID)
              = Inr (Sanitize (updated_fields manga req (clock d)))
          \<and> fst (GetByID (snd (UpdateManga d mid req userID)) mid)
              = Inr (updated_fields manga req (clock d))
          \<and> fst (DeleteManga d mid userID) = None
          \<and> fst (GetByID (snd (DeleteManga d mid userID)) mid) = Inl (Err ''manga not found''))"
proof (intro conjI impI)
  assume "UserCreated manga \<noteq> userID"
  then show "UpdateManga d mid req userID
      = (Inl (Err ''access denied: you can only update your own manga''), d1)"
    and "DeleteManga d mid userID
      = (Some (Err ''access denied: you can only delete your own manga''), d1)"
    using assms by (simp_all add: UpdateManga_def DeleteManga_def)
  show "mangas d1 = mangas d" by (rule GetByID_found(2) [OF assms])
next
  assume "UserCreated manga = userID"
  then show "UpdateManga d mid req userID
      = (case Update d1 (manga\<lparr>Name := Name_up req, Price := Price_up req,
                               IsActive := IsActive_up req\<rparr>) of
           (Inl err, d2) \<Rightarrow> (Inl err, d2)
         | (Inr row, d2) \<Rightarrow> (Inr (Sanitize row), d2))"
    and "DeleteManga d mid userID = Delete d1 mid"
    using assms by (simp_all add: UpdateManga_def DeleteManga_def)
next
  assume h: "UserCreated manga = userID \<and> 0 < mid \<and> faults d = []"
  then have d1: "d1 = d"
    using GetByID_found(5) [OF assms] by (simp add: db_call_answers)
  have f: "find (\<lambda>m. ID m = mid \<and> DeletedAt m = None) (mangas d) = Some manga"
    by (rule GetByID_found(1) [OF assms])
  let ?up = "map (\<lambda>r. if ID r = mid \<and> DeletedAt r = None
                       then updated_fields manga req (clock d) else r) (mangas d)"
  have u: "UpdateManga d mid req userID
      = (Inr (Sanitize (updated_fields manga req (clock d))), d\<lparr>mangas := ?up\<rparr>)"
    using UpdateManga_owner [OF assms, of userID req] h d1 by (simp add: db_call_answers)
  show "fst (UpdateManga d mid req userID) = Inr (Sanitize (updated_fields manga req (clock d)))"
    using u by simp
  show "fst (GetByID (snd (UpdateManga d mid req userID)) mid)
      = Inr (updated_fields manga req (clock d))"
    using u h stored_after_update [OF f, of req "clock d"] by (simp add: GetByID_answers)
  let ?del = "map (\<lambda>r. if ID r = mid \<and> DeletedAt r = None
                        then r\<lparr>DeletedAt := Some (clock d)\<rparr> else r) (mangas d)"
  have dl: "DeleteManga d mid userID = (None, d\<lparr>mangas := ?del\<rparr>)"
    using DeleteManga_owner [OF assms, of userID] h d1 by (simp add: Delete_answers)
  show "fst (DeleteManga d mid userID) = None" using dl by simp
  have "find (\<lambda>m. ID m = mid \<and> DeletedAt m = None) ?del = None"
    by (rule find_marked) simp
  then show "fst (GetByID (snd (DeleteManga d mid userID)) mid) = Inl (Err ''manga not found'')"
    using dl h by (simp add: GetByID_answers)
qed

lemma example_found: "GetByID example_db 1 = (Inr example_manga, example_db)"
  by (simp add: GetByID_def db_call_def example_db_def example_manga_def)

theorem ownership_guard_witness:
  "UpdateManga example_db 1 example_update 6
     = (Inl (Err ''access denied: you can only update your own manga''), example_db)
   \<and> DeleteManga example_db 1 6
     = (Some (Err ''access denied: you can only delete your own manga''), example_db)
   \<and> fst (UpdateManga example_db 1 example_update 5)
     = Inr (Sanitize (updated_fields example_manga example_update 20))
   \<and> fst (GetByID (snd (UpdateManga example_db 1 example_update 5)) 1)
     = Inr (updated_fields example_manga example_update 20)
   \<and> fst (DeleteManga example_db 1 5) = None
   \<and> fst (GetByID (snd (DeleteManga example_db 1 5)) 1) = Inl (Err ''manga not found'')"
proof -
  have a: "UserCreated example_manga \<noteq> 6"
    and b: "UserCreated example_manga = 5 \<and> 0 < (1::nat) \<and> faults example_db = []"
    and c: "clock example_db = 20"
    by (simp_all add: example_manga_def example_db_def)
  have denied:
    "UpdateManga example_db 1 example_update 6
       = (Inl (Err ''access denied: you can only update your own manga''), example_db)
     \<and> DeleteManga example_db 1 6
       = (Some (Err ''access denied: you can only delete your own manga''), example_db)"
    using ownership_guard [OF example_found, of 6 example_update, THEN conjunct1] a by simp
  have allowed:
    "fst (UpdateManga example_db 1 example_update 5)
       = Inr (Sanitize (updated_fields example_manga example_update 20))
     \<and> fst (GetByID (snd (UpdateManga example_db 1 example_update 5)) 1)
       = Inr (updated_fields example_manga example_update 20)
     \<and> fst (DeleteManga example_db 1 5) = None
     \<and> fst (GetByID (snd (DeleteManga example_db 1 5)) 1) = Inl (Err ''manga not found'')"
    using ownership_guard [OF example_found, of 5 example_update, THEN conjunct2, THEN conjunct2]
      b c by simp
  show ?thesis
    using denied allowed by blast
qed

text \<open>
  Claim C10. For every update UpdateManga accepts, the item stored under the identifier
  afterwards has the request's name, price and active flag; its identifier, owner,
  creation time and deletion marker are those read from the store, the owner being the
  acting user; the other rows of the table are as they were.
\<close>

theorem update_frame:
  assumes "UpdateManga d mid req userID = (Inr result, d2)" "0 < mid"
  shows "\<exists>manga stored.
       find (\<lambda>m. ID m = mid \<and> DeletedAt m = None) (mangas d) = Some manga
     \<and> find (\<lambda>m. ID m = mid \<and> DeletedAt m = None) (mangas d2) = Some stored
     \<and> Name stored = Name_up req \<and> Price stored = Price_up req
     \<and> IsActive stored = IsActive_up req
     \<and> ID stored = ID manga \<and> UserCreated stored = UserCreated manga
     \<and> UserCreated stored = userID
     \<and> CreatedAt stored = CreatedAt manga \<and> DeletedAt stored = DeletedAt manga
     \<and> UpdatedAt stored = clock d
     \<and> result = Sanitize stored
     \<and> length (mangas d2) = length (mangas d)
     \<and> (\<forall>i < length (mangas d). ID (mangas d ! i) \<noteq> mid \<longrightarrow> mangas d2 ! i = mangas d ! i)"
proof -
  from UpdateManga_accepted [OF assms] obtain manga d1 where
    g: "GetByID d mid = (Inr manga, d1)" and o: "UserCreated manga = userID"
    and r: "result = Sanitize (updated_fields manga req (clock d))"
    and m: "mangas d2 = map (\<lambda>r. if ID r = mid \<and> DeletedAt r = None
                                  then updated_fields manga req (clock d) else r) (mangas d)"
    by blast
  have f: "find (\<lambda>m. ID m = mid \<and> DeletedAt m = None) (mangas d) = Some manga"
    by (rule GetByID_found(1) [OF g])
  have s: "find (\<lambda>m. ID m = mid \<and> DeletedAt m = None) (mangas d2)
      = Some (updated_fields manga req (clock d))"
    using stored_after_update [OF f] m by simp
  show ?thesis
    using f s o r m
    by (intro exI [of _ manga] exI [of _ "updated_fields manga req (clock d)"])
       (simp add: updated_fields_def)
qed

theorem update_frame_witness:
  "\<exists>manga stored.
       find (\<lambda>m. ID m = 1 \<and> DeletedAt m = None) (mangas example_db) = Some manga
     \<and> find (\<lambda>m. ID m = 1 \<and> DeletedAt m = None)
         (mangas (snd (UpdateManga example_db 1 example_update 5))) = Some stored
     \<and> Name stored = ''Akira 2'' \<and> Price stored = 300 \<and> IsActive stored = False
     \<and> ID stored = ID manga \<and> UserCreated stored = UserCreated manga
     \<and> UserCreated stored = 5
     \<and> CreatedAt stored = CreatedAt manga \<and> DeletedAt stored = DeletedAt manga
     \<and> UpdatedAt stored = 20
     \<and> fst (UpdateManga example_db 1 example_update 5) = Inr (Sanitize stored)"
proof -
  obtain result d2 where u: "UpdateManga example_db 1 example_update 5 = (Inr result, d2)"
    using UpdateManga_owner [OF example_found, of 5 example_update]
    by (simp add: example_manga_def example_db_def db_call_def)
  have z: "0 < (1::nat)" by simp
  from update_frame [OF u z] obtain manga stored where
    f: "find (\<lambda>m. ID m = 1 \<and> DeletedAt m = None) (mangas example_db) = Some manga"
      "find (\<lambda>m. ID m = 1 \<and> DeletedAt m = None) (mangas d2) = Some stored"
      "Name stored = Name_up example_update" "Price stored = Price_up example_update"
      "IsActive stored = IsActive_up example_update"
      "ID stored = ID manga" "UserCreated stored = UserCreated manga" "UserCreated stored = 5"
      "CreatedAt stored = CreatedAt manga" "DeletedAt stored = DeletedAt manga"
      "UpdatedAt stored = clock example_db" "result = Sanitize stored"
    by blast
  have e: "Name_up example_update = ''Akira 2''" "Price_up example_update = 300"
    "IsActive_up example_update = False" "clock example_db = 20"
    by (simp_all add: example_update_def example_db_def)
  show ?thesis
    using f u unfolding e
    by (intro exI [of _ manga] exI [of _ stored]) simp
qed



section \<open>Entity sanitizer\<close>

text \<open>
  Claim C9. For every user and every catalog item, the sanitized copy has an empty
  password hash and no deletion marker, sanitizing it again changes nothing, and every
  other field is the one of the original.
\<close>

theorem sanitize_clears_and_keeps:
  "Password (Sanitize_user u) = [] \<and> DeletedAt_user (Sanitize_user u) = None
   \<and> DeletedAt (Sanitize m) = None
   \<and> Sanitize_user (Sanitize_user u) = Sanitize_user u
   \<and> Sanitize (Sanitize m) = Sanitize m
   \<and> Sanitize_user u = u\<lparr>Password := [], DeletedAt_user := None\<rparr>
   \<and> Sanitize m = m\<lparr>DeletedAt := None\<rparr>
   \<and> ID_user (Sanitize_user u) = ID_user u \<and> Name_user (Sanitize_user u) = Name_user u
   \<and> Email (Sanitize_user u) = Email u
   \<and> CreatedAt_user (Sanitize_user u) = CreatedAt_user u
   \<and> UpdatedAt_user (Sanitize_user u) = UpdatedAt_user u
   \<and> ID (Sanitize m) = ID m \<and> Name (Sanitize m) = Name m \<and> Price (Sanitize m) = Price m
   \<and> IsActive (Sanitize m) = IsActive m \<and> UserCreated (Sanitize m) = UserCreated m
   \<and> CreatedAt (Sanitize m) = CreatedAt m \<and> UpdatedAt (Sanitize m) = UpdatedAt m"
  by (simp add: Sanitize_def Sanitize_user_def)

section \<open>Validity of stored items\<close>

lemma IsValid_Sanitize: "IsValid (Sanitize m) = IsValid m"
  by (simp add: IsValid_def Sanitize_def)

lemma insert_row_valid:
  assumes "insert_row d m = (res, d2)" "IsValid m"
  shows "(\<forall>row. res = Some row \<longrightarrow> IsValid row \<and> mangas d2 = mangas d @ [row])
       \<and> (res = None \<longrightarrow> mangas d2 = mangas d)"
  using assms by (auto simp: insert_row_def Let_def IsValid_def split: if_splits)

lemma insert_row_all_valid:
  assumes "insert_row d m = (res, d2)" "IsValid m" "list_all IsValid (mangas d)"
  shows "list_all IsValid (mangas d2)"
  using insert_row_valid [OF assms(1,2)] assms(3) by (cases res) auto

lemma save_row_all_valid:
  assumes "save_row d m = (res, d2)" "IsValid m" "list_all IsValid (mangas d)"
  shows "list_all IsValid (mangas d2)"
proof -
  have v: "IsValid (m\<lparr>UpdatedAt := clock d\<rparr>)"
    and w: "\<And>t. IsValid (m\<lparr>UpdatedAt := clock d, CreatedAt := t\<rparr>)"
    using assms(2) by (simp_all add: IsValid_def)
  show ?thesis
  proof (cases "ID m = 0")
    case True
    then show ?thesis using assms insert_row_all_valid [of d m res d2] by (simp add: save_row_def)
  next
    case False
    note nz = this
    show ?thesis
    proof (cases "\<exists>r \<in> set (mangas d). ID r = ID m \<and> DeletedAt r = None")
      case True
      then show ?thesis
        using assms(1,3) nz v by (auto simp: save_row_def Let_def list_all_iff)
    next
      case False
      note nolive = this
      show ?thesis
      proof (cases "ID m \<in> set (map ID (mangas d))")
        case True
        then show ?thesis
          using assms(1,3) nz nolive w by (auto simp: save_row_def Let_def list_all_iff)
      next
        case False
        then have "insert_row d (m\<lparr>UpdatedAt := clock d\<rparr>) = (res, d2)"
          using assms(1) nz nolive by (simp add: save_row_def Let_def)
        from insert_row_all_valid [OF this v assms(3)] show ?thesis .
      qed
    qed
  qed
qed

lemma Create_valid:
  assumes "IsValid m"
  shows "(\<forall>row d2. Create d m = (Inr row, d2) \<longrightarrow> IsValid row \<and> mangas d2 = mangas d @ [row])
       \<and> (list_all IsValid (mangas d) \<longrightarrow> list_all IsValid (mangas (snd (Create d m))))"
proof -
  obtain ok d1 where c: "db_call d = (ok, d1)" by (cases "db_call d")
  obtain res d2 where i: "insert_row d1 m = (res, d2)" by (cases "insert_row d1 m")
  have f: "mangas d1 = mangas d" using db_call_fields [OF c] by simp
  show ?thesis
    using c i f insert_row_valid [OF i assms] insert_row_all_valid [OF i assms]
    by (cases ok; cases res) (auto simp: Create_def)
qed

lemma Update_all_valid:
  assumes "IsValid m" "list_all IsValid (mangas d)"
  shows "list_all IsValid (mangas (snd (Update d m)))"
proof -
  obtain ok d1 where c: "db_call d = (ok, d1)" by (cases "db_call d")
  obtain res d2 where i: "save_row d1 m = (res, d2)" by (cases "save_row d1 m")
  have f: "mangas d1 = mangas d" using db_call_fields [OF c] by simp
  show ?thesis
    using c i f save_row_all_valid [OF i assms(1)] assms(2)
    by (cases ok; cases res) (auto simp: Update_def)
qed

lemma Delete_all_valid:
  assumes "list_all IsValid (mangas d)"
  shows "list_all IsValid (mangas (snd (Delete d mid)))"
proof -
  obtain ok d1 where c: "db_call d = (ok, d1)" by (cases "db_call d")
  have f: "mangas d1 = mangas d" using db_call_fields [OF c] by simp
  show ?thesis
    using c f assms by (cases ok) (auto simp: Delete_def list_all_iff IsValid_def)
qed

lemma GetByID_mangas: "mangas (snd (GetByID d mid)) = mangas d"
proof -
  obtain ok d1 where c: "db_call d = (ok, d1)" by (cases "db_call d")
  show ?thesis
    using c db_call_fields [OF c] by (cases ok) (auto simp: GetByID_def split: option.splits)
qed

lemma GetByID_in_table: "GetByID d mid = (Inr manga, d1) \<Longrightarrow> manga \<in> set (mangas d)"
proof -
  assume g: "GetByID d mid = (Inr manga, d1)"
  obtain ok d0 where c: "db_call d = (ok, d0)" by (cases "db_call d")
  show ?thesis
    using g c db_call_fields [OF c]
    by (cases ok) (auto simp: GetByID_def find_Some_iff split: option.splits)
qed

lemma list_query_mangas: "mangas (snd (list_query cond msg d)) = mangas d"
proof -
  obtain ok d1 where c: "db_call d = (ok, d1)" by (cases "db_call d")
  show ?thesis using c db_call_fields [OF c] by (cases ok) (auto simp: list_query_def)
qed

lemma sanitized_list_snd: "snd (sanitized_list answer) = snd answer"
  by (auto simp: sanitized_list_def split: prod.splits sum.splits)

lemma paginated_query_mangas: "mangas (snd (paginated_query cond cm fm d p)) = mangas d"
proof -
  obtain ok d1 where c: "db_call d = (ok, d1)" by (cases "db_call d")
  obtain ok2 d2 where c2: "db_call d1 = (ok2, d2)" by (cases "db_call d1")
  show ?thesis
    using c c2 db_call_fields [OF c] db_call_fields [OF c2]
    by (cases ok; cases ok2) (auto simp: paginated_query_def Let_def)
qed

lemma paginated_result_snd: "snd (paginated_result answer p) = snd answer"
  by (auto simp: paginated_result_def split: prod.splits sum.splits)

lemma UpdateManga_all_valid:
  assumes "list_all IsValid (mangas d)" "Name_up req \<noteq> []" "0 \<le> Price_up req"
  shows "list_all IsValid (mangas (snd (UpdateManga d mid req userID)))"
proof -
  obtain res d1 where g: "GetByID d mid = (res, d1)" by (cases "GetByID d mid")
  have f: "mangas d1 = mangas d" using GetByID_mangas [of d mid] g by simp
  show ?thesis
  proof (cases res)
    case (Inl err)
    then show ?thesis using g f assms(1) by (simp add: UpdateManga_def)
  next
    case (Inr manga)
    then have "manga \<in> set (mangas d)" using g GetByID_in_table by simp
    then have "0 < UserCreated manga" using assms(1) by (auto simp: list_all_iff IsValid_def)
    then have v: "IsValid (manga\<lparr>Name := Name_up req, Price := Price_up req,
                                 IsActive := IsActive_up req\<rparr>)"
      using assms(2,3) by (simp add: IsValid_def)
    have "list_all IsValid (mangas d1)" using f assms(1) by simp
    from Update_all_valid [OF v this] show ?thesis
      using g Inr f assms(1)
      by (auto simp: UpdateManga_def Let_def split: prod.splits sum.splits)
  qed
qed


lemma CreateManga_unfold:
  "CreateManga d req userID =
     (if \<not> IsValid (new_manga req userID) then (Inl (Err ''invalid manga data''), d)
      else case Create d (new_manga req userID) of
             (Inl err, d1) \<Rightarrow> (Inl err, d1)
           | (Inr row, d1) \<Rightarrow> (Inr (Sanitize row), d1))"
  by (simp add: CreateManga_def new_manga_def Let_def)

lemma CreateManga_invalid:
  assumes "Name_cr req = [] \<or> Price_cr req < 0 \<or> userID = 0"
  shows "CreateManga d req userID = (Inl (Err ''invalid manga data''), d)"
proof -
  have "\<not> IsValid (new_manga req userID)"
    using assms by (auto simp: IsValid_def new_manga_def)
  then show ?thesis by (simp add: CreateManga_unfold)
qed

lemma CreateManga_stored:
  assumes "CreateManga d req userID = (Inr row, d1)"
  shows "\<exists>stored. mangas d1 = mangas d @ [stored] \<and> IsValid stored \<and> row = Sanitize stored
           \<and> IsValid row"
proof -
  let ?m = "new_manga req userID"
  have v: "IsValid ?m"
    using assms by (cases "IsValid ?m") (simp_all add: CreateManga_unfold)
  obtain res d2 where c: "Create d ?m = (res, d2)" by (cases "Create d ?m")
  from assms v c obtain stored where s: "res = Inr stored" "row = Sanitize stored" "d1 = d2"
    by (cases res) (simp_all add: CreateManga_unfold)
  have "IsValid stored \<and> mangas d2 = mangas d @ [stored]"
    using Create_valid [OF v, of d, THEN conjunct1, rule_format, of stored d2] c s(1) by simp
  then show ?thesis
    using s by (intro exI [of _ stored]) (simp add: IsValid_Sanitize)
qed

lemma CreateManga_all_valid:
  assumes "list_all IsValid (mangas d)"
  shows "list_all IsValid (mangas (snd (CreateManga d req userID)))"
proof (cases "IsValid (new_manga req userID)")
  case True
  obtain res d2 where c: "Create d (new_manga req userID) = (res, d2)"
    by (cases "Create d (new_manga req userID)")
  have "list_all IsValid (mangas d2)"
    using Create_valid [OF True, of d, THEN conjunct2] assms c by simp
  then show ?thesis
    using True c by (cases res) (simp_all add: CreateManga_unfold)
next
  case False
  then show ?thesis using assms by (simp add: CreateManga_unfold)
qed

lemma DeleteManga_all_valid:
  assumes "list_all IsValid (mangas d)"
  shows "list_all IsValid (mangas (snd (DeleteManga d mid userID)))"
proof -
  obtain res d1 where g: "GetByID d mid = (res, d1)" by (cases "GetByID d mid")
  have f: "mangas d1 = mangas d" using GetByID_mangas [of d mid] g by simp
  then have "list_all IsValid (mangas d1)" using assms by simp
  from Delete_all_valid [OF this, of mid] show ?thesis
    using g f assms by (cases res) (auto simp: DeleteManga_def)
qed

lemma accepted_update_valid:
  assumes u: "UpdateManga d mid req userID = (Inr result, d2)" and "0 < mid"
    and a: "list_all IsValid (mangas d)"
  shows "list_all IsValid (mangas d2) \<longleftrightarrow> Name_up req \<noteq> [] \<and> 0 \<le> Price_up req"
proof
  assume "Name_up req \<noteq> [] \<and> 0 \<le> Price_up req"
  then show "list_all IsValid (mangas d2)"
    using UpdateManga_all_valid [OF a, of req mid userID] u by simp
next
  assume v: "list_all IsValid (mangas d2)"
  from UpdateManga_accepted [OF u \<open>0 < mid\<close>] obtain manga d1 where
    g: "GetByID d mid = (Inr manga, d1)"
    and m: "mangas d2 = map (\<lambda>r. if ID r = mid \<and> DeletedAt r = None
                                  then updated_fields manga req (clock d) else r) (mangas d)"
    by blast
  have "manga \<in> set (mangas d)" "ID manga = mid" "DeletedAt manga = None"
    using GetByID_row [OF g] by simp_all
  then have "updated_fields manga req (clock d) \<in> set (mangas d2)"
    unfolding m by force
  then have "IsValid (updated_fields manga req (clock d))"
    using v by (simp add: list_all_iff)
  then show "Name_up req \<noteq> [] \<and> 0 \<le> Price_up req"
    by (simp add: IsValid_def updated_fields_def)
qed

text \<open>
  Claim C2, amended. CreateManga rejects data with an empty name, a negative price or
  a zero owner with an error and stores nothing; every item it stores has a non-empty
  name, a non-negative price and a positive owner. A table whose items all satisfy this
  still does after CreateManga, after DeleteManga and after every read operation. After
  an accepted UpdateManga it does exactly when the request's name is non-empty and its
  price non-negative: the service stores the two as they come.
\<close>

theorem validity_invariant:
  "(Name_cr req = [] \<or> Price_cr req < 0 \<or> userID = 0 \<longrightarrow>
      CreateManga d req userID = (Inl (Err ''invalid manga data''), d))
   \<and> (\<forall>row d1. CreateManga d req userID = (Inr row, d1) \<longrightarrow>
         (\<exists>stored. mangas d1 = mangas d @ [stored] \<and> IsValid stored \<and> row = Sanitize stored
            \<and> IsValid row))
   \<and> (list_all IsValid (mangas d) \<longrightarrow>
         list_all IsValid (mangas (snd (CreateManga d req userID)))
       \<and> list_all IsValid (mangas (snd (DeleteManga d mid userID)))
       \<and> (Name_up upd \<noteq> [] \<and> 0 \<le> Price_up upd \<longrightarrow>
            list_all IsValid (mangas (snd (UpdateManga d mid upd userID))))
       \<and> (\<forall>result d2. UpdateManga d mid upd userID = (Inr result, d2) \<and> 0 < mid \<longrightarrow>
            (list_all IsValid (mangas d2) \<longleftrightarrow> Name_up upd \<noteq> [] \<and> 0 \<le> Price_up upd)))
   \<and> mangas (snd (GetMangaByID d mid)) = mangas d
   \<and> mangas (snd (GetMangas d)) = mangas d
   \<and> mangas (snd (GetMangasByUser d userID)) = mangas d
   \<and> mangas (snd (GetActiveMangas d)) = mangas d
   \<and> mangas (snd (GetMangasByPriceRange d lo hi)) = mangas d
   \<and> mangas (snd (GetMangasPaginated d p)) = mangas d
   \<and> mangas (snd (GetActiveMangasPaginated d p)) = mangas d
   \<and> mangas (snd (GetMangasByUserPaginated d userID p)) = mangas d
   \<and> mangas (snd (GetMangasByPriceRangePaginated d lo hi p)) = mangas d"
proof -
  have reads:
    "mangas (snd (GetMangaByID d mid)) = mangas d"
    "mangas (snd (GetMangas d)) = mangas d"
    "mangas (snd (GetMangasByUser d userID)) = mangas d"
    "mangas (snd (GetActiveMangas d)) = mangas d"
    "mangas (snd (GetMangasByPriceRange d lo hi)) = mangas d"
    using GetByID_mangas [of d mid]
    by (auto simp: GetMangaByID_def GetMangas_def GetMangasByUser_def GetActiveMangas_def
        GetMangasByPriceRange_def List_repo_def GetByUserID_def GetActiveMangas_repo_def
        GetMangasByPriceRange_repo_def sanitized_list_snd list_query_mangas
        split: prod.splits sum.splits)
  have pages:
    "mangas (snd (GetMangasPaginated d p)) = mangas d"
    "mangas (snd (GetActiveMangasPaginated d p)) = mangas d"
    "mangas (snd (GetMangasByUserPaginated d userID p)) = mangas d"
    "mangas (snd (GetMangasByPriceRangePaginated d lo hi p)) = mangas d"
    by (simp_all add: GetMangasPaginated_def GetActiveMangasPaginated_def
        GetMangasByUserPaginated_def GetMangasByPriceRangePaginated_def ListPaginated_def
        GetActiveMangasPaginated_repo_def GetMangasByUserIDPaginated_def
        GetMangasByPriceRangePaginated_repo_def paginated_result_snd paginated_query_mangas)
  show ?thesis
    using CreateManga_invalid [of req userID d] CreateManga_stored [of d req userID]
      CreateManga_all_valid [of d req userID] DeleteManga_all_valid [of d mid userID]
      UpdateManga_all_valid [of d upd mid userID]
      accepted_update_valid [of d mid upd userID] reads pages
    by (intro conjI impI allI) blast+
qed

theorem validity_invariant_witness:
  "CreateManga example_db \<lparr>Name_cr = [], Price_cr = 5, IsActive_cr = True\<rparr> 5
     = (Inl (Err ''invalid manga data''), example_db)
   \<and> list_all IsValid (mangas (snd (CreateManga example_db
         \<lparr>Name_cr = ''Dune'', Price_cr = 5, IsActive_cr = True\<rparr> 5)))
   \<and> list_all IsValid (mangas (snd (DeleteManga example_db 1 5)))
   \<and> list_all IsValid (mangas (snd (UpdateManga example_db 1 example_update 5)))"
proof -
  have v: "list_all IsValid (mangas example_db)"
    by (simp add: example_db_def example_manga_def IsValid_def)
  have r: "Name_up example_update \<noteq> [] \<and> 0 \<le> Price_up example_update"
    by (simp add: example_update_def)
  have "CreateManga example_db \<lparr>Name_cr = [], Price_cr = 5, IsActive_cr = True\<rparr> 5
     = (Inl (Err ''invalid manga data''), example_db)"
    using validity_invariant [of "\<lparr>Name_cr = [], Price_cr = 5, IsActive_cr = True\<rparr>" 5 example_db,
        THEN conjunct1]
    by simp
  moreover have "list_all IsValid (mangas (snd (CreateManga example_db
         \<lparr>Name_cr = ''Dune'', Price_cr = 5, IsActive_cr = True\<rparr> 5)))
     \<and> list_all IsValid (mangas (snd (DeleteManga example_db 1 5)))
     \<and> list_all IsValid (mangas (snd (UpdateManga example_db 1 example_update 5)))"
    using validity_invariant [of "\<lparr>Name_cr = ''Dune'', Price_cr = 5, IsActive_cr = True\<rparr>" 5
        example_db 1 example_update, THEN conjunct2, THEN conjunct2, THEN conjunct1] v r
    by blast
  ultimately show ?thesis by blast
qed

text \<open>
  Claim C2 as stated fails for UpdateManga: the owner of a valid item updates it with
  an empty name and a negative price, the update is accepted, and the item stored has
  both.
\<close>

theorem update_stores_invalid_item:
  "list_all IsValid (mangas example_db)
   \<and> UpdateManga example_db 1 \<lparr>Name_up = [], Price_up = - 1, IsActive_up = True\<rparr> 5
       = (Inr (example_manga\<lparr>Name := [], Price := - 1, UpdatedAt := 20\<rparr>),
          example_db\<lparr>mangas := [example_manga\<lparr>Name := [], Price := - 1, UpdatedAt := 20\<rparr>]\<rparr>)
   \<and> \<not> IsValid (example_manga\<lparr>Name := [], Price := - 1, UpdatedAt := 20\<rparr>)"
  by (simp add: UpdateManga_def GetByID_def Update_def save_row_def db_call_def Sanitize_def
      IsValid_def example_db_def example_manga_def Let_def)



section \<open>Catalog queries with pagination\<close>

lemma paginated_query_answers:
  "faults d = [] \<Longrightarrow> paginated_query cond cm fm d p =
     (Inr (offset_limit (GetOffset p) (GetLimit p) (scope cond d),
           of_nat (length (scope cond d))), d)"
  by (simp add: paginated_query_def db_call_answers Let_def)

lemma offset_limit_window:
  "normalized p \<Longrightarrow> offset_limit (GetOffset p) (GetLimit p) xs = window p xs"
  by (auto simp: offset_limit_def window_def normalized_def GetLimit_def Let_def
      word_sle_eq word_sless_alt)

lemma paginated_result_data:
  assumes "normalized p" "faults d = []"
  shows "\<exists>meta. paginated_result (paginated_query cond cm fm d p) p =
           (Inr \<lparr>Data = map Sanitize (window p (scope cond d)), Pagination = meta\<rparr>, d)
         \<and> NewPaginationResponse (Page p) (PageSize p) (of_nat (length (scope cond d))) = Inr meta"
proof -
  have "PageSize p \<noteq> 0" using assms(1) by (auto simp: normalized_def word_sle_eq)
  then obtain meta where
    m: "NewPaginationResponse (Page p) (PageSize p) (of_nat (length (scope cond d))) = Inr meta"
    by (simp add: NewPaginationResponse_def Let_def)
  show ?thesis
    using m assms
    by (simp add: paginated_result_def paginated_query_answers offset_limit_window)
qed

lemma div_le_pages:
  assumes "0 < (s::int)" "n \<le> (g - 1) * s"
  shows "(n + s - 1) div s \<le> g - 1"
proof -
  have "(n + s - 1) div s \<le> ((g - 1) * s + (s - 1)) div s"
    using assms by (intro zdiv_mono1) simp_all
  also have "\<dots> = (g - 1) + (s - 1) div s"
    using assms(1) by (simp add: add.commute)
  also have "(s - 1) div s = 0"
    using assms(1) by simp
  finally show ?thesis by simp
qed

lemma count_le_product:
  assumes "normalized p" "int n < 2^63" "int n \<le> sint (GetOffset p)"
  shows "int n \<le> (sint (Page p) - 1) * sint (PageSize p)"
proof (cases "(sint (Page p) - 1) * sint (PageSize p) < 2^63")
  case True
  have b: "1 \<le> sint (Page p)" "1 \<le> sint (PageSize p)"
    using assms(1) by (simp_all add: normalized_def word_sle_eq)
  have "(Page p - 1) * PageSize p = word_of_int ((sint (Page p) - 1) * sint (PageSize p))"
    by simp
  moreover have "0 \<le> (sint (Page p) - 1) * sint (PageSize p)"
    using b by simp
  ultimately have "sint (GetOffset p) = (sint (Page p) - 1) * sint (PageSize p)"
    using sint_wi64 [of "(sint (Page p) - 1) * sint (PageSize p)"] True
    by (simp add: GetOffset_def)
  then show ?thesis using assms(3) by simp
next
  case False
  then show ?thesis using assms(2) by simp
qed

lemma beyond_total:
  assumes n: "normalized p" and f: "faults d = []"
    and t: "int (length (mangas d)) + 100 \<le> 2^63"
    and o: "int (length (scope cond d)) \<le> sint (GetOffset p)"
  shows "\<exists>meta. paginated_result (paginated_query cond cm fm d p) p =
           (Inr \<lparr>Data = [], Pagination = meta\<rparr>, d)
         \<and> reflects_total p (length (scope cond d)) meta"
proof -
  let ?n = "length (scope cond d)"
  let ?ti = "of_nat ?n :: go_int"
  have b: "1 \<le> sint (Page p)" "1 \<le> sint (PageSize p)" "sint (PageSize p) \<le> 100"
    using n by (simp_all add: normalized_def word_sle_eq)
  have "?n \<le> length (mangas d)" by (simp add: scope_def)
  then have nb: "int ?n + 100 \<le> 2^63" using t by simp
  then have st: "sint ?ti = int ?n" by (intro sint_of_nat64) simp
  from paginated_result_data [OF n f, of cond cm fm] obtain meta where
    r: "paginated_result (paginated_query cond cm fm d p) p =
          (Inr \<lparr>Data = map Sanitize (window p (scope cond d)), Pagination = meta\<rparr>, d)"
    and m: "NewPaginationResponse (Page p) (PageSize p) ?ti = Inr meta"
    by blast
  have w: "window p (scope cond d) = []"
    using o by (simp add: window_def)
  have z: "PageSize p \<noteq> 0" using b by auto
  have q: "sint (go_quot (?ti + PageSize p - 1) (PageSize p))
      = \<lceil>real_of_int (sint ?ti) / real_of_int (sint (PageSize p))\<rceil>"
    using n nb st b by (intro quot_ceil) (simp_all add: normalized_def word_sle_eq)
  have "\<lceil>real_of_int (int ?n) / real_of_int (sint (PageSize p))\<rceil>
      = (int ?n + sint (PageSize p) - 1) div sint (PageSize p)"
    using ceiling_divide_eq_div [of "int ?n" "sint (PageSize p)"]
      ceil_div0 [of "sint (PageSize p)" "int ?n"] b
    by simp
  also have "\<dots> \<le> sint (Page p) - 1"
    using count_le_product [OF n _ o] nb b by (intro div_le_pages) simp_all
  finally have le: "sint (go_quot (?ti + PageSize p - 1) (PageSize p)) < sint (Page p)"
    using q st by simp
  have "reflects_total p ?n meta"
    using m z q st le
    by (auto simp: NewPaginationResponse_def Let_def reflects_total_def word_sless_alt)
  then show ?thesis using r w by simp
qed



lemmas paginated_operations =
  GetMangasPaginated_def GetActiveMangasPaginated_def GetMangasByUserPaginated_def
  GetMangasByPriceRangePaginated_def ListPaginated_def GetActiveMangasPaginated_repo_def
  GetMangasByUserIDPaginated_def GetMangasByPriceRangePaginated_repo_def

lemma table_db_scope: "scope (\<lambda>m. True) (table_db ids) = map numbered_manga ids"
  by (simp add: scope_def table_db_def numbered_manga_def)

lemma offset_exact:
  assumes "normalized p" "(sint (Page p) - 1) * sint (PageSize p) < 2^63"
  shows "sint (GetOffset p) = (sint (Page p) - 1) * sint (PageSize p)"
proof -
  have b: "1 \<le> sint (Page p)" "1 \<le> sint (PageSize p)"
    using assms(1) by (simp_all add: normalized_def word_sle_eq)
  have "(Page p - 1) * PageSize p = word_of_int ((sint (Page p) - 1) * sint (PageSize p))"
    by simp
  moreover have "0 \<le> (sint (Page p) - 1) * sint (PageSize p)"
    using b by simp
  ultimately show ?thesis
    using sint_wi64 [of "(sint (Page p) - 1) * sint (PageSize p)"] assms(2)
    by (simp add: GetOffset_def)
qed

text \<open>
  Claim C7, amended. For every table (of fewer than \<open>2^63 - 100\<close> rows) on a database
  that answers and every normalized request whose offset \<open>(page - 1) * page_size\<close> fits
  a 64-bit integer and is at or beyond the number of items matching the filter, each
  paginated list operation returns no data, and metadata whose total is the number of
  matching items, whose number of pages is the ceiling of that number over the page
  size, and which has no next page.
\<close>

theorem offset_beyond_total:
  assumes "normalized p" "faults d = []" "int (length (mangas d)) + 100 \<le> 2^63"
    and "(sint (Page p) - 1) * sint (PageSize p) < 2^63"
  shows "(int (length (scope (\<lambda>m. True) d)) \<le> (sint (Page p) - 1) * sint (PageSize p) \<longrightarrow>
            (\<exists>meta. GetMangasPaginated d p = (Inr \<lparr>Data = [], Pagination = meta\<rparr>, d)
               \<and> reflects_total p (length (scope (\<lambda>m. True) d)) meta))
       \<and> (int (length (scope (\<lambda>m. IsActive m = True) d))
             \<le> (sint (Page p) - 1) * sint (PageSize p) \<longrightarrow>
            (\<exists>meta. GetActiveMangasPaginated d p = (Inr \<lparr>Data = [], Pagination = meta\<rparr>, d)
               \<and> reflects_total p (length (scope (\<lambda>m. IsActive m = True) d)) meta))
       \<and> (int (length (scope (\<lambda>m. UserCreated m = userID) d))
             \<le> (sint (Page p) - 1) * sint (PageSize p) \<longrightarrow>
            (\<exists>meta. GetMangasByUserPaginated d userID p
                 = (Inr \<lparr>Data = [], Pagination = meta\<rparr>, d)
               \<and> reflects_total p (length (scope (\<lambda>m. UserCreated m = userID) d)) meta))
       \<and> (int (length (scope (\<lambda>m. lo \<le> Price m \<and> Price m \<le> hi) d))
             \<le> (sint (Page p) - 1) * sint (PageSize p) \<longrightarrow>
            (\<exists>meta. GetMangasByPriceRangePaginated d lo hi p
                 = (Inr \<lparr>Data = [], Pagination = meta\<rparr>, d)
               \<and> reflects_total p (length (scope (\<lambda>m. lo \<le> Price m \<and> Price m \<le> hi) d)) meta))"
proof -
  have e: "(sint (Page p) - 1) * sint (PageSize p) = sint (GetOffset p)"
    using offset_exact [OF assms(1,4)] by simp
  show ?thesis
    unfolding paginated_operations e
    by (intro conjI impI beyond_total [OF assms(1-3)])
qed

theorem offset_beyond_total_witness:
  "\<exists>meta. GetMangasPaginated (table_db [1..<26]) \<lparr>Page = 999, PageSize = 10\<rparr>
       = (Inr \<lparr>Data = [], Pagination = meta\<rparr>, table_db [1..<26])
     \<and> sint (TotalItems meta) = 25 \<and> sint (TotalPages meta) = 3 \<and> \<not> HasNextPage meta"
proof -
  let ?p = "\<lparr>Page = 999, PageSize = 10\<rparr>"
  have n: "normalized ?p" by (simp add: normalized_def word_sle_eq)
  have f: "faults (table_db [1..<26]) = []" by (simp add: table_db_def)
  have t: "int (length (mangas (table_db [1..<26]))) + 100 \<le> 2^63" by (simp add: table_db_def)
  have b: "(sint (Page ?p) - 1) * sint (PageSize ?p) < 2^63" by simp
  have c: "length (scope (\<lambda>m. True) (table_db [1..<26])) = 25" by (simp add: table_db_scope)
  have o: "int (length (scope (\<lambda>m. True) (table_db [1..<26])))
      \<le> (sint (Page ?p) - 1) * sint (PageSize ?p)"
    unfolding c by simp
  from offset_beyond_total [OF n f t b, THEN conjunct1, rule_format, OF o] obtain meta where
    "GetMangasPaginated (table_db [1..<26]) ?p
       = (Inr \<lparr>Data = [], Pagination = meta\<rparr>, table_db [1..<26])"
    "reflects_total ?p 25 meta"
    unfolding c by blast
  then show ?thesis
    by (intro exI [of _ meta]) (simp add: reflects_total_def)
qed

text \<open>
  Claim C7 as stated fails where the offset wraps around: page \<open>2^62 + 1\<close> in pages of
  4 is a normalized request whose offset \<open>2^64\<close> is beyond the 25 items of the table,
  and the page returned holds the first four of them.
\<close>

theorem wrapped_offset_returns_rows:
  "normalized (NewPaginationRequest 0x4000000000000001 4)
   \<and> int (length (scope (\<lambda>m. True) (table_db [1..<26])))
       < (sint (Page (NewPaginationRequest 0x4000000000000001 4)) - 1)
           * sint (PageSize (NewPaginationRequest 0x4000000000000001 4))
   \<and> map_sum (\<lambda>e. e) (\<lambda>r. map ID (Data r))
        (fst (GetMangasPaginated (table_db [1..<26]) (NewPaginationRequest 0x4000000000000001 4)))
       = Inr [1, 2, 3, 4]"
proof -
  let ?p = "NewPaginationRequest 0x4000000000000001 4"
  let ?d = "table_db [1..<26]"
  have p: "?p = \<lparr>Page = 0x4000000000000001, PageSize = 4\<rparr>"
    by (simp add: NewPaginationRequest_def word_sless_alt)
  have n: "normalized ?p" unfolding p by (simp add: normalized_def word_sle_eq)
  have f: "faults ?d = []" by (simp add: table_db_def)
  have c: "int (length (scope (\<lambda>m. True) ?d))
      < (sint (Page ?p) - 1) * sint (PageSize ?p)"
    unfolding p by (simp add: table_db_scope)
  have w: "map ID (window ?p (scope (\<lambda>m. True) ?d)) = [1, 2, 3, 4]"
    unfolding p
    by (simp add: table_db_scope window_def GetOffset_def GetLimit_def numbered_manga_def
        comp_def take_map upt_rec)
  from paginated_result_data [OF n f, of "\<lambda>m. True" "''failed to count mangas''"
      "''failed to get paginated mangas''"]
  have "map_sum (\<lambda>e. e) Data (fst (GetMangasPaginated ?d ?p))
      = Inr (map Sanitize (window ?p (scope (\<lambda>m. True) ?d)))"
    by (auto simp: GetMangasPaginated_def ListPaginated_def)
  then have "map_sum (\<lambda>e. e) (\<lambda>r. map ID (Data r)) (fst (GetMangasPaginated ?d ?p))
      = Inr (map ID (window ?p (scope (\<lambda>m. True) ?d)))"
    by (cases "fst (GetMangasPaginated ?d ?p)") (auto simp: Sanitize_def comp_def)
  then show ?thesis using n c w by simp
qed





end
